theory Spec2Isabelle
  imports Main
begin

section \<open>Callers and SQL three-valued logic\<close>

text \<open>
  The application is a React client over a Postgres database with row level security
  (the two SQL migrations) and one private storage bucket, \<open>job-files\<close>. Every request
  carries the caller's session: \<open>auth.uid()\<close> is the caller's identity (NULL without a
  session) and \<open>auth.role()\<close> is \<open>authenticated\<close> or \<open>anon\<close>. In the client, \<open>user?.id\<close>
  of \<open>useAuth\<close> is the same identity (undefined without a session).
\<close>

type_synonym uuid = string

datatype caller = Anon | Authenticated uuid

fun auth_uid :: "caller \<Rightarrow> uuid option" where
  "auth_uid Anon = None"
| "auth_uid (Authenticated u) = Some u"

fun auth_role :: "caller \<Rightarrow> string" where
  "auth_role Anon = ''anon''"
| "auth_role (Authenticated u) = ''authenticated''"

text \<open>
  A nullable column is an \<open>option\<close>, with \<open>None\<close> for NULL. A comparison with NULL is
  NULL, and a policy lets a row through only when its expression is true.
\<close>

type_synonym sql_bool = "bool option"

definition sql_eq :: "'a option \<Rightarrow> 'a option \<Rightarrow> sql_bool" where
  "sql_eq a b =
     (case a of None \<Rightarrow> None
      | Some x \<Rightarrow> (case b of None \<Rightarrow> None | Some y \<Rightarrow> Some (x = y)))"

fun sql_and :: "sql_bool \<Rightarrow> sql_bool \<Rightarrow> sql_bool" where
  "sql_and (Some False) b = Some False"
| "sql_and a (Some False) = Some False"
| "sql_and (Some True) (Some True) = Some True"
| "sql_and a b = None"

fun sql_or :: "sql_bool \<Rightarrow> sql_bool \<Rightarrow> sql_bool" where
  "sql_or (Some True) b = Some True"
| "sql_or a (Some True) = Some True"
| "sql_or (Some False) (Some False) = Some False"
| "sql_or a b = None"

definition sql_in :: "'a option \<Rightarrow> 'a list \<Rightarrow> sql_bool" where
  "sql_in a xs = (case a of None \<Rightarrow> None | Some x \<Rightarrow> Some (x \<in> set xs))"

definition coalesce :: "'a option \<Rightarrow> 'a option \<Rightarrow> 'a option" where
  "coalesce a b = (case a of None \<Rightarrow> b | Some x \<Rightarrow> Some x)"

definition is_true :: "sql_bool \<Rightarrow> bool" where
  "is_true b = (b = Some True)"

section \<open>Tables\<close>

text \<open>
  One record per table of the migrations, with the columns the client reads or writes.
  The timestamp columns, \<open>jobs.thumbnail\<close>, \<open>project_templates.thumbnail\<close> and
  \<open>project_templates.template_data\<close> are left out: no policy and no constraint reads
  them. A column declared NOT NULL has a plain type.
\<close>

record auth_user =
  u_id :: uuid
  u_email :: "string option"
  u_full_name :: "string option"

record profile =
  p_id :: uuid
  p_email :: string
  p_full_name :: string
  p_role :: string

record job =
  j_id :: uuid
  j_name :: string
  j_description :: "string option"
  j_created_by :: "uuid option"
  j_priority :: "string option"
  j_status :: "string option"
  j_client_name :: "string option"

record job_file =
  jf_id :: uuid
  jf_job_id :: "uuid option"
  jf_file_name :: string
  jf_file_path :: string
  jf_file_type :: string
  jf_file_size :: nat
  jf_is_presentation :: "bool option"
  jf_uploaded_by :: "uuid option"

record project_template =
  t_id :: uuid
  t_name :: string
  t_description :: "string option"
  t_category :: "string option"
  t_is_public :: "bool option"
  t_created_by :: "uuid option"

record file_comment =
  fc_id :: uuid
  fc_file_id :: uuid
  fc_user_id :: uuid
  fc_comment :: string
  fc_parent_id :: "uuid option"

record file_version =
  fv_id :: uuid
  fv_file_id :: uuid
  fv_version_number :: nat
  fv_file_path :: string
  fv_file_size :: nat
  fv_changelog :: "string option"
  fv_created_by :: "uuid option"

record storage_object =
  o_bucket_id :: string
  o_name :: string
  o_content :: string

record database =
  auth_users :: "auth_user list"
  profiles :: "profile list"
  jobs :: "job list"
  job_files :: "job_file list"
  project_templates :: "project_template list"
  file_comments :: "file_comment list"
  file_versions :: "file_version list"
  objects :: "storage_object list"

datatype error =
  Rls_violation | Unique_violation | Not_null_violation | Foreign_key_violation
  | Check_violation | Already_exists | Not_found

section \<open>Row level security\<close>

text \<open>
  Every table has row level security enabled. A policy is an expression over the caller
  and the row; the policies of one table and one command are combined with OR, and a
  command with no policy is denied for every row.
\<close>

datatype command = SELECT | INSERT | UPDATE | DELETE

type_synonym 'r policy = "caller \<Rightarrow> 'r \<Rightarrow> sql_bool"

definition rls_allows :: "'r policy list \<Rightarrow> caller \<Rightarrow> 'r \<Rightarrow> bool" where
  "rls_allows ps c r = list_ex (\<lambda>p. is_true (p c r)) ps"

definition authenticated_only :: "'r policy" where
  "authenticated_only c r = sql_eq (Some (auth_role c)) (Some ''authenticated'')"

fun profiles_policies :: "command \<Rightarrow> profile policy list" where
  "profiles_policies SELECT = [authenticated_only]"
| "profiles_policies UPDATE = [\<lambda>c r. sql_eq (auth_uid c) (Some (p_id r))]"
| "profiles_policies INSERT = []"
| "profiles_policies DELETE = []"

fun jobs_policies :: "command \<Rightarrow> job policy list" where
  "jobs_policies SELECT = [authenticated_only]"
| "jobs_policies INSERT = [authenticated_only]"
| "jobs_policies UPDATE = [\<lambda>c r. sql_eq (auth_uid c) (j_created_by r)]"
| "jobs_policies DELETE = [\<lambda>c r. sql_eq (auth_uid c) (j_created_by r)]"

fun job_files_policies :: "command \<Rightarrow> job_file policy list" where
  "job_files_policies SELECT = [authenticated_only]"
| "job_files_policies INSERT = [authenticated_only]"
| "job_files_policies UPDATE = [\<lambda>c r. sql_eq (auth_uid c) (jf_uploaded_by r)]"
| "job_files_policies DELETE = [\<lambda>c r. sql_eq (auth_uid c) (jf_uploaded_by r)]"

fun project_templates_policies :: "command \<Rightarrow> project_template policy list" where
  "project_templates_policies SELECT =
     [\<lambda>c r. sql_or (sql_eq (t_is_public r) (Some True)) (sql_eq (auth_uid c) (t_created_by r))]"
| "project_templates_policies INSERT = [authenticated_only]"
| "project_templates_policies UPDATE = [\<lambda>c r. sql_eq (auth_uid c) (t_created_by r)]"
| "project_templates_policies DELETE = []"

fun file_comments_policies :: "command \<Rightarrow> file_comment policy list" where
  "file_comments_policies SELECT = [authenticated_only]"
| "file_comments_policies INSERT = [authenticated_only]"
| "file_comments_policies UPDATE = [\<lambda>c r. sql_eq (auth_uid c) (Some (fc_user_id r))]"
| "file_comments_policies DELETE = [\<lambda>c r. sql_eq (auth_uid c) (Some (fc_user_id r))]"

fun file_versions_policies :: "command \<Rightarrow> file_version policy list" where
  "file_versions_policies SELECT = [authenticated_only]"
| "file_versions_policies INSERT = [authenticated_only]"
| "file_versions_policies UPDATE = []"
| "file_versions_policies DELETE = []"

subsection \<open>Storage paths\<close>

text \<open>
  \<open>split_on\<close> is JavaScript's \<open>s.split(d)\<close> for a one-character separator: it always
  returns at least one piece.
\<close>

fun split_on :: "char \<Rightarrow> string \<Rightarrow> string list" where
  "split_on d [] = [[]]"
| "split_on d (c # cs) =
     (if c = d then [] # split_on d cs
      else (case split_on d cs of [] \<Rightarrow> [[c]] | p # ps \<Rightarrow> (c # p) # ps))"

text \<open>
  Modelled from the spec: \<open>storage.foldername\<close> is a function of the storage service and
  is not defined in the migrations. The spec reads \<open>(storage.foldername(name))[1]\<close> as the
  leading segment of the object's path: the name is cut at every \<open>/\<close>, the last piece
  (the file's own name) is dropped, and index 1 is the first piece that remains, NULL
  when there is none.
\<close>

definition foldername :: "string \<Rightarrow> string list" where
  "foldername name = butlast (split_on (CHR ''/'') name)"

definition sql_first :: "'a list \<Rightarrow> 'a option" where
  "sql_first xs = (case xs of [] \<Rightarrow> None | x # _ \<Rightarrow> Some x)"

definition in_job_files_bucket :: "storage_object \<Rightarrow> sql_bool" where
  "in_job_files_bucket ob = sql_eq (Some (o_bucket_id ob)) (Some ''job-files'')"

fun storage_objects_policies :: "command \<Rightarrow> storage_object policy list" where
  "storage_objects_policies SELECT =
     [\<lambda>c ob. sql_and (in_job_files_bucket ob) (authenticated_only c ob)]"
| "storage_objects_policies INSERT =
     [\<lambda>c ob. sql_and (in_job_files_bucket ob) (authenticated_only c ob)]"
| "storage_objects_policies UPDATE =
     [\<lambda>c ob. sql_and (in_job_files_bucket ob)
        (sql_eq (auth_uid c) (sql_first (foldername (o_name ob))))]"
| "storage_objects_policies DELETE =
     [\<lambda>c ob. sql_and (in_job_files_bucket ob)
        (sql_eq (auth_uid c) (sql_first (foldername (o_name ob))))]"

subsection \<open>Statements under row level security\<close>

text \<open>
  A SELECT, UPDATE or DELETE touches the rows that match its filter and pass the
  command's policies; the other rows are skipped without an error. An UPDATE policy
  with no WITH CHECK clause applies its USING expression to the new row as well, and
  the statement fails when a new row does not pass.
\<close>

definition rls_select :: "'r policy list \<Rightarrow> caller \<Rightarrow> ('r \<Rightarrow> bool) \<Rightarrow> 'r list \<Rightarrow> 'r list" where
  "rls_select ps c flt rows = filter (\<lambda>r. flt r \<and> rls_allows ps c r) rows"

definition rls_delete :: "'r policy list \<Rightarrow> caller \<Rightarrow> ('r \<Rightarrow> bool) \<Rightarrow> 'r list \<Rightarrow> 'r list" where
  "rls_delete ps c flt rows = filter (\<lambda>r. \<not> (flt r \<and> rls_allows ps c r)) rows"

definition rls_update ::
  "'r policy list \<Rightarrow> caller \<Rightarrow> ('r \<Rightarrow> bool) \<Rightarrow> ('r \<Rightarrow> 'r) \<Rightarrow> 'r list \<Rightarrow> error + 'r list" where
  "rls_update ps c flt f rows =
     (if list_all (\<lambda>r. rls_allows ps c (f r)) (rls_select ps c flt rows)
      then Inr (map (\<lambda>r. if flt r \<and> rls_allows ps c r then f r else r) rows)
      else Inl Rls_violation)"

section \<open>Statements of the storage layer\<close>

definition fk_ok :: "uuid option \<Rightarrow> uuid list \<Rightarrow> bool" where
  "fk_ok v ids = (case v of None \<Rightarrow> True | Some x \<Rightarrow> x \<in> set ids)"

definition check_in :: "string option \<Rightarrow> string list \<Rightarrow> bool" where
  "check_in v allowed = (case v of None \<Rightarrow> True | Some x \<Rightarrow> x \<in> set allowed)"

subsection \<open>Profiles: the trigger on new identities\<close>

definition admin_emails :: "string list" where
  "admin_emails = [''eman.mukhtar@fastsigns.com'', ''chuck@curryhhi.com'']"

text \<open>
  \<open>handle_new_user\<close> is the body of the trigger: one INSERT into \<open>profiles\<close>. It runs
  as SECURITY DEFINER, so no policy applies; the table's constraints do (\<open>email\<close> and
  \<open>full_name\<close> NOT NULL, \<open>id\<close> the primary key and a reference to \<open>auth.users\<close>).
\<close>

definition handle_new_user :: "auth_user \<Rightarrow> database \<Rightarrow> error + database" where
  "handle_new_user NEW db =
     (let role = (if is_true (sql_in (u_email NEW) admin_emails) then ''admin'' else ''user'')
      in case u_email NEW of
           None \<Rightarrow> Inl Not_null_violation
         | Some email \<Rightarrow>
             (case coalesce (u_full_name NEW) (u_email NEW) of
                None \<Rightarrow> Inl Not_null_violation
              | Some full_name \<Rightarrow>
                  if u_id NEW \<in> set (map p_id (profiles db)) then Inl Unique_violation
                  else if u_id NEW \<notin> set (map u_id (auth_users db)) then Inl Foreign_key_violation
                  else Inr (db\<lparr>profiles := profiles db @
                         [\<lparr>p_id = u_id NEW, p_email = email, p_full_name = full_name,
                           p_role = role\<rparr>]\<rparr>)))"

text \<open>
  The trigger \<open>on_auth_user_created\<close> fires AFTER INSERT ON \<open>auth.users\<close>, for each row,
  in the inserting transaction: when it fails, the identity is not created either.
\<close>

definition insert_auth_user :: "auth_user \<Rightarrow> database \<Rightarrow> error + database" where
  "insert_auth_user NEW db =
     (if u_id NEW \<in> set (map u_id (auth_users db)) then Inl Unique_violation
      else handle_new_user NEW (db\<lparr>auth_users := auth_users db @ [NEW]\<rparr>))"

definition update_profiles ::
  "caller \<Rightarrow> uuid \<Rightarrow> (profile \<Rightarrow> profile) \<Rightarrow> database \<Rightarrow> error + database" where
  "update_profiles c target f db =
     (case rls_update (profiles_policies UPDATE) c (\<lambda>r. p_id r = target) f (profiles db) of
        Inl e \<Rightarrow> Inl e
      | Inr rows \<Rightarrow> Inr (db\<lparr>profiles := rows\<rparr>))"

subsection \<open>Jobs and their files\<close>

definition insert_job :: "caller \<Rightarrow> job \<Rightarrow> database \<Rightarrow> error + database" where
  "insert_job c row db =
     (if \<not> rls_allows (jobs_policies INSERT) c row then Inl Rls_violation
      else if \<not> (check_in (j_priority row) [''low'', ''medium'', ''high'']
                \<and> check_in (j_status row) [''pending'', ''in-progress'', ''completed''])
        then Inl Check_violation
      else if j_id row \<in> set (map j_id (jobs db)) then Inl Unique_violation
      else if \<not> fk_ok (j_created_by row) (map p_id (profiles db)) then Inl Foreign_key_violation
      else Inr (db\<lparr>jobs := jobs db @ [row]\<rparr>))"

text \<open>
  \<open>job_files.job_id\<close> is declared ON DELETE CASCADE: the files of every deleted job go
  with it, whoever uploaded them. Nothing refers to \<open>storage.objects\<close>.
\<close>

definition delete_jobs :: "caller \<Rightarrow> uuid \<Rightarrow> database \<Rightarrow> database" where
  "delete_jobs c jid db =
     (let deleted = rls_select (jobs_policies DELETE) c (\<lambda>r. j_id r = jid) (jobs db)
      in db\<lparr>jobs := rls_delete (jobs_policies DELETE) c (\<lambda>r. j_id r = jid) (jobs db),
            job_files := filter (\<lambda>f. \<not> (\<exists>j \<in> set deleted. jf_job_id f = Some (j_id j)))
                           (job_files db)\<rparr>)"

definition insert_job_file :: "caller \<Rightarrow> job_file \<Rightarrow> database \<Rightarrow> error + database" where
  "insert_job_file c row db =
     (if \<not> rls_allows (job_files_policies INSERT) c row then Inl Rls_violation
      else if jf_id row \<in> set (map jf_id (job_files db)) then Inl Unique_violation
      else if \<not> (fk_ok (jf_job_id row) (map j_id (jobs db))
                \<and> fk_ok (jf_uploaded_by row) (map p_id (profiles db)))
        then Inl Foreign_key_violation
      else Inr (db\<lparr>job_files := job_files db @ [row]\<rparr>))"

definition delete_job_files :: "caller \<Rightarrow> uuid \<Rightarrow> database \<Rightarrow> database" where
  "delete_job_files c fid db =
     db\<lparr>job_files := rls_delete (job_files_policies DELETE) c (\<lambda>r. jf_id r = fid) (job_files db)\<rparr>"

subsection \<open>Comments, templates and versions\<close>

definition delete_file_comments :: "caller \<Rightarrow> uuid \<Rightarrow> database \<Rightarrow> database" where
  "delete_file_comments c cid db =
     db\<lparr>file_comments :=
          rls_delete (file_comments_policies DELETE) c (\<lambda>r. fc_id r = cid) (file_comments db)\<rparr>"

definition delete_project_templates :: "caller \<Rightarrow> uuid \<Rightarrow> database \<Rightarrow> database" where
  "delete_project_templates c tid db =
     db\<lparr>project_templates :=
          rls_delete (project_templates_policies DELETE) c (\<lambda>r. t_id r = tid)
            (project_templates db)\<rparr>"

definition select_project_templates :: "caller \<Rightarrow> database \<Rightarrow> project_template list" where
  "select_project_templates c db =
     rls_select (project_templates_policies SELECT) c (\<lambda>r. True) (project_templates db)"

definition select_file_versions :: "caller \<Rightarrow> uuid \<Rightarrow> database \<Rightarrow> file_version list" where
  "select_file_versions c fid db =
     rls_select (file_versions_policies SELECT) c (\<lambda>r. fv_file_id r = fid) (file_versions db)"

definition insert_file_version :: "caller \<Rightarrow> file_version \<Rightarrow> database \<Rightarrow> error + database" where
  "insert_file_version c row db =
     (if \<not> rls_allows (file_versions_policies INSERT) c row then Inl Rls_violation
      else if fv_id row \<in> set (map fv_id (file_versions db)) then Inl Unique_violation
      else Inr (db\<lparr>file_versions := file_versions db @ [row]\<rparr>))"

definition update_file_versions ::
  "caller \<Rightarrow> (file_version \<Rightarrow> bool) \<Rightarrow> (file_version \<Rightarrow> file_version) \<Rightarrow> database
     \<Rightarrow> error + database" where
  "update_file_versions c flt f db =
     (case rls_update (file_versions_policies UPDATE) c flt f (file_versions db) of
        Inl e \<Rightarrow> Inl e
      | Inr rows \<Rightarrow> Inr (db\<lparr>file_versions := rows\<rparr>))"

definition delete_file_versions :: "caller \<Rightarrow> (file_version \<Rightarrow> bool) \<Rightarrow> database \<Rightarrow> database" where
  "delete_file_versions c flt db =
     db\<lparr>file_versions := rls_delete (file_versions_policies DELETE) c flt (file_versions db)\<rparr>"

subsection \<open>The bucket\<close>

text \<open>
  The client always names the bucket \<open>job-files\<close>. An upload creates the object and
  fails when the path is taken (the client never asks to overwrite); a download reads
  the object the SELECT policy shows; a removal deletes the listed objects that the
  DELETE policy lets through.
\<close>

definition storage_upload :: "caller \<Rightarrow> string \<Rightarrow> string \<Rightarrow> database \<Rightarrow> error + database" where
  "storage_upload c path content db =
     (let ob = \<lparr>o_bucket_id = ''job-files'', o_name = path, o_content = content\<rparr>
      in if \<not> rls_allows (storage_objects_policies INSERT) c ob then Inl Rls_violation
         else if list_ex (\<lambda>x. o_bucket_id x = ''job-files'' \<and> o_name x = path) (objects db)
           then Inl Already_exists
         else Inr (db\<lparr>objects := objects db @ [ob]\<rparr>))"

definition storage_download :: "caller \<Rightarrow> string \<Rightarrow> database \<Rightarrow> error + string" where
  "storage_download c path db =
     (case rls_select (storage_objects_policies SELECT) c
             (\<lambda>x. o_bucket_id x = ''job-files'' \<and> o_name x = path) (objects db) of
        [] \<Rightarrow> Inl Not_found
      | ob # _ \<Rightarrow> Inr (o_content ob))"

definition storage_remove :: "caller \<Rightarrow> string list \<Rightarrow> database \<Rightarrow> database" where
  "storage_remove c paths db =
     db\<lparr>objects := rls_delete (storage_objects_policies DELETE) c
                     (\<lambda>x. o_bucket_id x = ''job-files'' \<and> o_name x \<in> set paths) (objects db)\<rparr>"

section \<open>The client\<close>

text \<open>
  Each function of a React component is modelled as the sequence of requests it sends,
  for the caller whose session the client holds. What the source takes from the clock,
  the random generator or \<open>gen_random_uuid()\<close> is a parameter. Toasts and the state of
  dialogs are left out; a thrown error ends the function and is returned.
\<close>

subsection \<open>Strings of the client\<close>

text \<open>
  \<open>show_nat\<close> prints a number in decimal, as a template literal does; \<open>digit_char\<close> is
  only applied to a digit. \<open>toLowerCase\<close> is JavaScript's on ASCII letters: other
  characters are kept.
\<close>

definition digit_char :: "nat \<Rightarrow> char" where
  "digit_char n = ''0123456789'' ! n"

function show_nat :: "nat \<Rightarrow> string" where
  "show_nat n = (if n < 10 then [digit_char n] else show_nat (n div 10) @ [digit_char (n mod 10)])"
  by pat_completeness auto
termination
  by (relation "measure (\<lambda>n. n)") auto

declare show_nat.simps [simp del]

definition file_ext :: "string \<Rightarrow> string" where
  "file_ext name = last (split_on (CHR ''.'') name)"

definition to_lower_char :: "char \<Rightarrow> char" where
  "to_lower_char ch =
     (case map_of (zip ''ABCDEFGHIJKLMNOPQRSTUVWXYZ'' ''abcdefghijklmnopqrstuvwxyz'') ch of
        None \<Rightarrow> ch
      | Some l \<Rightarrow> l)"

definition toLowerCase :: "string \<Rightarrow> string" where
  "toLowerCase s = map to_lower_char s"

fun js_includes :: "string \<Rightarrow> string \<Rightarrow> bool" where
  "js_includes [] sub = (sub = [])"
| "js_includes (ch # cs) sub = (take (length sub) (ch # cs) = sub \<or> js_includes cs sub)"

record browser_file =
  bf_name :: string
  bf_type :: string
  bf_size :: nat
  bf_content :: string

subsection \<open>AdminPanel: updateUserRole\<close>

definition updateUserRole :: "caller \<Rightarrow> uuid \<Rightarrow> string \<Rightarrow> database \<Rightarrow> error + database" where
  "updateUserRole c userId newRole db =
     update_profiles c userId (\<lambda>r. r\<lparr>p_role := newRole\<rparr>) db"

subsection \<open>Dashboard: createJob and deleteJob\<close>

definition createJob ::
  "caller \<Rightarrow> uuid \<Rightarrow> string \<Rightarrow> string option \<Rightarrow> string option \<Rightarrow> string option \<Rightarrow> database
     \<Rightarrow> error + database" where
  "createJob c new_id name description client_name priority db =
     insert_job c
       \<lparr>j_id = new_id, j_name = name, j_description = description,
        j_created_by = auth_uid c,
        j_priority = Some (case priority of None \<Rightarrow> ''medium''
                           | Some p \<Rightarrow> if p = [] then ''medium'' else p),
        j_status = Some ''pending'', j_client_name = client_name\<rparr> db"

definition deleteJob :: "caller \<Rightarrow> uuid \<Rightarrow> database \<Rightarrow> database" where
  "deleteJob c jobId db = delete_jobs c jobId db"

subsection \<open>JobFiles: handleFileUpload and deleteFile\<close>

record upload_request =
  ur_file :: browser_file
  ur_now :: nat
  ur_random :: string
  ur_new_id :: uuid

definition upload_path :: "uuid \<Rightarrow> upload_request \<Rightarrow> string" where
  "upload_path jobId r =
     jobId @ ''/'' @ (show_nat (ur_now r) @ ''-'' @ ur_random r @ ''.''
       @ file_ext (bf_name (ur_file r)))"

definition is_presentation_file :: "browser_file \<Rightarrow> bool" where
  "is_presentation_file f =
     (js_includes (toLowerCase (bf_name f)) ''presentation''
      \<or> js_includes (bf_type f) ''presentation''
      \<or> toLowerCase (file_ext (bf_name f)) = ''pptx''
      \<or> toLowerCase (file_ext (bf_name f)) = ''ppt'')"

fun handleFileUpload ::
  "caller \<Rightarrow> uuid \<Rightarrow> upload_request list \<Rightarrow> database \<Rightarrow> error option \<times> database" where
  "handleFileUpload c jobId [] db = (None, db)"
| "handleFileUpload c jobId (r # rs) db =
     (case storage_upload c (upload_path jobId r) (bf_content (ur_file r)) db of
        Inl e \<Rightarrow> (Some e, db)
      | Inr db1 \<Rightarrow>
          (case insert_job_file c
                  \<lparr>jf_id = ur_new_id r, jf_job_id = Some jobId,
                   jf_file_name = bf_name (ur_file r),
                   jf_file_path = upload_path jobId r,
                   jf_file_type = (if bf_type (ur_file r) = [] then ''application/octet-stream''
                                   else bf_type (ur_file r)),
                   jf_file_size = bf_size (ur_file r),
                   jf_is_presentation = Some (is_presentation_file (ur_file r)),
                   jf_uploaded_by = auth_uid c\<rparr> db1 of
             Inl e \<Rightarrow> (Some e, db1)
           | Inr db2 \<Rightarrow> handleFileUpload c jobId rs db2))"

definition deleteFile :: "caller \<Rightarrow> job_file \<Rightarrow> database \<Rightarrow> database" where
  "deleteFile c file db =
     delete_job_files c (jf_id file) (storage_remove c [jf_file_path file] db)"

subsection \<open>FileCollaboration: fetchVersions and createNewVersion\<close>

text \<open>
  The component keeps the list \<open>versions\<close> that its last completed fetch set.
  \<open>createNewVersion\<close> numbers the new version from the list of the render it is called
  in, uploads and inserts. On success it calls \<open>fetchVersions()\<close> without awaiting it:
  the call returns with the list as it was, and the list changes only when that fetch
  completes, later.
\<close>

definition fetchVersions :: "caller \<Rightarrow> uuid \<Rightarrow> database \<Rightarrow> file_version list" where
  "fetchVersions c fileId db = rev (sort_key fv_version_number (select_file_versions c fileId db))"

definition version_path :: "uuid \<Rightarrow> nat \<Rightarrow> browser_file \<Rightarrow> string" where
  "version_path fileId n f =
     fileId @ ''/versions/'' @ (fileId @ ''_v'' @ show_nat n @ ''.'' @ file_ext (bf_name f))"

definition createNewVersion ::
  "caller \<Rightarrow> uuid \<Rightarrow> file_version list \<Rightarrow> browser_file \<Rightarrow> string \<Rightarrow> uuid \<Rightarrow> database
     \<Rightarrow> error option \<times> database" where
  "createNewVersion c fileId versions f changelog new_id db =
     (let filePath = version_path fileId (length versions + 1) f
      in case storage_upload c filePath (bf_content f) db of
           Inl e \<Rightarrow> (Some e, db)
         | Inr db1 \<Rightarrow>
             (case insert_file_version c
                     \<lparr>fv_id = new_id, fv_file_id = fileId,
                      fv_version_number = length versions + 1,
                      fv_file_path = filePath, fv_file_size = bf_size f,
                      fv_changelog = Some changelog, fv_created_by = auth_uid c\<rparr> db1 of
                Inl e \<Rightarrow> (Some e, db1)
              | Inr db2 \<Rightarrow> (None, db2)))"

subsection \<open>Several clients on one file\<close>

text \<open>
  Clients are numbered; client \<open>i\<close> holds the session \<open>who i\<close> and its own list
  \<open>cl_versions s i\<close>, and all of them show the same file. \<open>FetchVersions i\<close> is a
  fetch of client \<open>i\<close> that completes and sets its list: the one the component starts
  when it mounts, or the one a successful \<open>createNewVersion\<close> starts.
  \<open>CreateNewVersion i\<close> is the upload and the insert of a call of \<open>createNewVersion\<close>
  by client \<open>i\<close>; it leaves the client's list as it is. A schedule is the order in
  which these reach the storage layer: a creation that comes before the fetch of the
  previous one has completed runs on the old list.
\<close>

record collab =
  cl_db :: database
  cl_versions :: "nat \<Rightarrow> file_version list"

datatype event = FetchVersions nat | CreateNewVersion nat browser_file string uuid

fun step :: "(nat \<Rightarrow> caller) \<Rightarrow> uuid \<Rightarrow> event \<Rightarrow> collab \<Rightarrow> collab" where
  "step who fileId (FetchVersions i) s =
     s\<lparr>cl_versions := (cl_versions s)(i := fetchVersions (who i) fileId (cl_db s))\<rparr>"
| "step who fileId (CreateNewVersion i f changelog new_id) s =
     s\<lparr>cl_db :=
         snd (createNewVersion (who i) fileId (cl_versions s i) f changelog new_id (cl_db s))\<rparr>"

definition run :: "(nat \<Rightarrow> caller) \<Rightarrow> uuid \<Rightarrow> event list \<Rightarrow> collab \<Rightarrow> collab" where
  "run who fileId evs s = fold (step who fileId) evs s"

definition versions_of :: "uuid \<Rightarrow> database \<Rightarrow> file_version list" where
  "versions_of fileId db = filter (\<lambda>r. fv_file_id r = fileId) (file_versions db)"

text \<open>
  The version numbers of a file are well numbered when they are distinct and none
  exceeds the number of the file's versions.
\<close>

definition well_numbered :: "uuid \<Rightarrow> database \<Rightarrow> bool" where
  "well_numbered fileId db =
     (distinct (map fv_version_number (versions_of fileId db))
      \<and> list_all (\<lambda>v. fv_version_number v \<le> length (versions_of fileId db))
            (versions_of fileId db))"

section \<open>A small database\<close>

text \<open>
  Two identities with their profiles (the first on the allowlist of administrators), one
  job of the first with one file uploaded by the second, the file's object in the
  bucket, a private template of the first and a comment of the second.
\<close>

definition ex_admin :: profile where
  "ex_admin = \<lparr>p_id = ''u1'', p_email = ''eman.mukhtar@fastsigns.com'',
     p_full_name = ''Eman'', p_role = ''admin''\<rparr>"

definition ex_user :: profile where
  "ex_user = \<lparr>p_id = ''u2'', p_email = ''pat@example.com'',
     p_full_name = ''Pat'', p_role = ''user''\<rparr>"

definition ex_job :: job where
  "ex_job = \<lparr>j_id = ''j1'', j_name = ''Banner'', j_description = None,
     j_created_by = Some ''u1'', j_priority = Some ''medium'', j_status = Some ''pending'',
     j_client_name = None\<rparr>"

definition ex_file :: job_file where
  "ex_file = \<lparr>jf_id = ''f1'', jf_job_id = Some ''j1'', jf_file_name = ''a.png'',
     jf_file_path = ''j1/7-x.png'', jf_file_type = ''image/png'', jf_file_size = 3,
     jf_is_presentation = Some False, jf_uploaded_by = Some ''u2''\<rparr>"

definition ex_object :: storage_object where
  "ex_object = \<lparr>o_bucket_id = ''job-files'', o_name = ''j1/7-x.png'', o_content = ''abc''\<rparr>"

definition ex_template :: project_template where
  "ex_template = \<lparr>t_id = ''t1'', t_name = ''Wrap'', t_description = None,
     t_category = None, t_is_public = Some False, t_created_by = Some ''u1''\<rparr>"

definition ex_comment :: file_comment where
  "ex_comment = \<lparr>fc_id = ''c1'', fc_file_id = ''f1'', fc_user_id = ''u2'',
     fc_comment = ''ok'', fc_parent_id = None\<rparr>"

definition ex_db :: database where
  "ex_db = \<lparr>auth_users =
       [\<lparr>u_id = ''u1'', u_email = Some ''eman.mukhtar@fastsigns.com'', u_full_name = Some ''Eman''\<rparr>,
        \<lparr>u_id = ''u2'', u_email = Some ''pat@example.com'', u_full_name = Some ''Pat''\<rparr>],
     profiles = [ex_admin, ex_user], jobs = [ex_job], job_files = [ex_file],
     project_templates = [ex_template], file_comments = [ex_comment], file_versions = [],
     objects = [ex_object]\<rparr>"

definition ex_who :: "nat \<Rightarrow> caller" where
  "ex_who i = (if i = 0 then Authenticated ''u1'' else Authenticated ''u2'')"

definition ex_png :: browser_file where
  "ex_png = \<lparr>bf_name = ''a.png'', bf_type = ''image/png'', bf_size = 3, bf_content = ''abc''\<rparr>"

definition ex_jpg :: browser_file where
  "ex_jpg = \<lparr>bf_name = ''b.jpg'', bf_type = ''image/jpeg'', bf_size = 3, bf_content = ''xyz''\<rparr>"

definition ex_request :: upload_request where
  "ex_request = \<lparr>ur_file = ex_png, ur_now = 1757102400, ur_random = ''k3x9'', ur_new_id = ''f2''\<rparr>"

definition ex_collab :: collab where
  "ex_collab = \<lparr>cl_db = ex_db, cl_versions = \<lambda>i. []\<rparr>"

definition ex_chuck :: auth_user where
  "ex_chuck = \<lparr>u_id = ''u3'', u_email = Some ''chuck@curryhhi.com'', u_full_name = None\<rparr>"

definition ex_no_email :: auth_user where
  "ex_no_email = \<lparr>u_id = ''u4'', u_email = None, u_full_name = Some ''Lee''\<rparr>"

definition ex_db_chuck :: database where
  "ex_db_chuck = ex_db\<lparr>auth_users := auth_users ex_db @ [ex_chuck],
     profiles := [ex_admin, ex_user,
       \<lparr>p_id = ''u3'', p_email = ''chuck@curryhhi.com'',
        p_full_name = ''chuck@curryhhi.com'', p_role = ''admin''\<rparr>]\<rparr>"

definition ex_version :: file_version where
  "ex_version = \<lparr>fv_id = ''v1'', fv_file_id = ''f1'', fv_version_number = 1,
     fv_file_path = ''f1/versions/f1_v1.png'', fv_file_size = 3,
     fv_changelog = Some ''first'', fv_created_by = Some ''u1''\<rparr>"

definition ex_db_v1 :: database where
  "ex_db_v1 = ex_db\<lparr>file_versions := [ex_version],
     objects := [ex_object, \<lparr>o_bucket_id = ''job-files'',
       o_name = ''f1/versions/f1_v1.png'', o_content = ''abc''\<rparr>]\<rparr>"

section \<open>Facts about the policies\<close>

lemma sql_or_true_iff [simp]: "(sql_or a b = Some True) = (a = Some True \<or> b = Some True)"
  by (induction a b rule: sql_or.induct) auto

lemma sql_and_true_iff [simp]: "(sql_and a b = Some True) = (a = Some True \<and> b = Some True)"
  by (induction a b rule: sql_and.induct) auto

lemma sql_eq_some_iff [simp]: "(sql_eq (Some x) (Some y) = Some True) = (x = y)"
  by (simp add: sql_eq_def)

lemma sql_eq_some_left [simp]: "(sql_eq (Some x) v = Some True) = (v = Some x)"
  by (cases v) (auto simp: sql_eq_def)

lemma sql_eq_none_right [simp]: "sql_eq a None \<noteq> Some True"
  by (cases a) (simp_all add: sql_eq_def)

lemma sql_eq_uid_iff [simp]:
  "(sql_eq (auth_uid c) v = Some True) = (\<exists>u. c = Authenticated u \<and> v = Some u)"
  by (cases c; cases v) (auto simp: sql_eq_def)

lemma authenticated_only_iff [simp]:
  "(authenticated_only c r = Some True) = (\<exists>u. c = Authenticated u)"
  by (cases c) (simp_all add: authenticated_only_def)

lemma rls_allows_Nil [simp]: "rls_allows [] c r = False"
  by (simp add: rls_allows_def)

lemma rls_allows_single [simp]: "rls_allows [p] c r = (p c r = Some True)"
  by (simp add: rls_allows_def is_true_def)

lemma rls_delete_none [simp]: "rls_delete [] c flt rows = rows"
  by (simp add: rls_delete_def)

lemma in_rls_delete [simp]:
  "(r \<in> set (rls_delete ps c flt rows)) = (r \<in> set rows \<and> \<not> (flt r \<and> rls_allows ps c r))"
  by (simp add: rls_delete_def)

lemmas ex_defs = ex_db_def ex_admin_def ex_user_def ex_job_def ex_file_def ex_object_def
  ex_template_def ex_comment_def

lemma rls_update_none [simp]: "rls_update [] c flt f rows = Inr rows"
  by (simp add: rls_update_def rls_select_def map_idI)

section \<open>Templates are private unless public\<close>

text \<open>
  Claim C6. A template with \<open>is_public = false\<close> is returned by a select to its creator
  and to no other caller, whatever the caller's session; a template with
  \<open>is_public = true\<close> is returned to every caller, so to every authenticated one.
\<close>

theorem template_visibility:
  assumes "t \<in> set (project_templates db)"
  shows "(t_is_public t = Some False \<longrightarrow>
            (t \<in> set (select_project_templates c db))
              = (\<exists>u. c = Authenticated u \<and> t_created_by t = Some u))
         \<and> (t_is_public t = Some True \<longrightarrow> t \<in> set (select_project_templates c db))"
  using assms by (auto simp: select_project_templates_def rls_select_def)

theorem template_visibility_witness:
  "ex_template \<in> set (project_templates ex_db)
   \<and> t_is_public ex_template = Some False
   \<and> ex_template \<in> set (select_project_templates (Authenticated ''u1'') ex_db)
   \<and> ex_template \<notin> set (select_project_templates (Authenticated ''u2'') ex_db)"
proof -
  have h: "ex_template \<in> set (project_templates ex_db)"
    by (simp add: ex_db_def)
  from template_visibility [OF h, of "Authenticated ''u1''"]
       template_visibility [OF h, of "Authenticated ''u2''"] h
  show ?thesis by (simp add: ex_template_def)
qed

section \<open>File versions are append-only\<close>

text \<open>
  Claim C9. \<open>file_versions\<close> has a SELECT and an INSERT policy and no other: for every
  caller, every filter and every change, a DELETE leaves the table as it was and an
  UPDATE changes nothing, and a row passes the policies of a command exactly when the
  command is SELECT or INSERT and the caller is authenticated.
\<close>

theorem file_versions_append_only:
  "file_versions (delete_file_versions c flt db) = file_versions db
   \<and> update_file_versions c flt f db = Inr db
   \<and> rls_allows (file_versions_policies cmd) c r
       = ((cmd = SELECT \<or> cmd = INSERT) \<and> (\<exists>u. c = Authenticated u))"
  by (cases cmd) (simp_all add: delete_file_versions_def update_file_versions_def)

theorem file_versions_append_only_witness:
  "update_file_versions (Authenticated ''u1'') (\<lambda>r. True) (\<lambda>r. r\<lparr>fv_version_number := 0\<rparr>) ex_db
     = Inr ex_db
   \<and> \<not> rls_allows (file_versions_policies DELETE) (Authenticated ''u1'')
         \<lparr>fv_id = ''v1'', fv_file_id = ''f1'', fv_version_number = 1,
          fv_file_path = ''f1/versions/f1_v1.png'', fv_file_size = 3, fv_changelog = None,
          fv_created_by = Some ''u1''\<rparr>"
  using file_versions_append_only [of "Authenticated ''u1''" "\<lambda>r. True" ex_db
     "\<lambda>r. r\<lparr>fv_version_number := 0\<rparr>" DELETE]
  by simp

section \<open>Who may delete a row\<close>

text \<open>
  Claim C1, as the policies have it. A delete succeeds when the row is gone afterwards.
  For an authenticated caller, a job, a job file or a comment of the table is deleted by
  a delete on its id exactly when the caller is the row's owner (\<open>created_by\<close>,
  \<open>uploaded_by\<close>, \<open>user_id\<close>). \<open>project_templates\<close> has no DELETE policy: a template
  stays in the table for every caller.
\<close>

theorem delete_by_owner_only:
  "(j \<in> set (jobs db) \<longrightarrow>
      (j \<notin> set (jobs (delete_jobs (Authenticated u) (j_id j) db))) = (j_created_by j = Some u))
   \<and> (f \<in> set (job_files db) \<longrightarrow>
      (f \<notin> set (job_files (delete_job_files (Authenticated u) (jf_id f) db)))
        = (jf_uploaded_by f = Some u))
   \<and> (m \<in> set (file_comments db) \<longrightarrow>
      (m \<notin> set (file_comments (delete_file_comments (Authenticated u) (fc_id m) db)))
        = (fc_user_id m = u))
   \<and> (t \<in> set (project_templates db) \<longrightarrow>
      t \<in> set (project_templates (delete_project_templates c (t_id t) db)))"
  by (auto simp: delete_jobs_def delete_job_files_def delete_file_comments_def
      delete_project_templates_def Let_def)

theorem delete_by_owner_only_witness:
  "ex_job \<in> set (jobs ex_db) \<and> j_created_by ex_job = Some ''u1''
   \<and> ex_job \<notin> set (jobs (delete_jobs (Authenticated ''u1'') ''j1'' ex_db))
   \<and> ex_file \<in> set (job_files ex_db) \<and> jf_uploaded_by ex_file \<noteq> Some ''u1''
   \<and> ex_file \<in> set (job_files (delete_job_files (Authenticated ''u1'') ''f1'' ex_db))
   \<and> ex_comment \<in> set (file_comments ex_db)
   \<and> ex_comment \<in> set (file_comments (delete_file_comments (Authenticated ''u1'') ''c1'' ex_db))
   \<and> ex_template \<in> set (project_templates ex_db)
   \<and> ex_template \<in> set (project_templates (delete_project_templates (Authenticated ''u1'') ''t1'' ex_db))"
  using delete_by_owner_only [of ex_job ex_db "''u1''" ex_file ex_comment ex_template "Authenticated ''u1''"]
  by (simp add: ex_defs)

text \<open>
  The claim as written fails for a template: its creator asks to delete it and the
  template is still there.
\<close>

theorem template_owner_delete_counterexample:
  "\<not> ((ex_template \<notin> set (project_templates
            (delete_project_templates (Authenticated ''u1'') (t_id ex_template) ex_db)))
       = (t_created_by ex_template = auth_uid (Authenticated ''u1'')))"
  by (simp add: ex_defs delete_project_templates_def)

section \<open>Who owns a new job\<close>

text \<open>
  Claim C4, as the code has it. The INSERT policy of \<open>jobs\<close> asks only that the caller is
  authenticated; the owner is set by the client. Every job that \<open>createJob\<close> inserts is
  owned by the caller, who is authenticated.
\<close>

theorem createJob_owner:
  assumes "createJob c new_id name description client_name priority db = Inr db'"
  shows "\<exists>u j. c = Authenticated u \<and> jobs db' = jobs db @ [j]
           \<and> j_id j = new_id \<and> j_created_by j = Some u"
  using assms
  by (cases c) (auto simp: createJob_def insert_job_def split: if_splits)

theorem createJob_owner_witness:
  "createJob (Authenticated ''u2'') ''j2'' ''Sign'' None None None ex_db
     = Inr (ex_db\<lparr>jobs := [ex_job, \<lparr>j_id = ''j2'', j_name = ''Sign'', j_description = None,
         j_created_by = Some ''u2'', j_priority = Some ''medium'', j_status = Some ''pending'',
         j_client_name = None\<rparr>]\<rparr>)
   \<and> (\<exists>j. jobs (ex_db\<lparr>jobs := [ex_job, \<lparr>j_id = ''j2'', j_name = ''Sign'',
         j_description = None, j_created_by = Some ''u2'', j_priority = Some ''medium'',
         j_status = Some ''pending'', j_client_name = None\<rparr>]\<rparr>) = jobs ex_db @ [j]
         \<and> j_id j = ''j2'' \<and> j_created_by j = Some ''u2'')"
proof -
  have h: "createJob (Authenticated ''u2'') ''j2'' ''Sign'' None None None ex_db
     = Inr (ex_db\<lparr>jobs := [ex_job, \<lparr>j_id = ''j2'', j_name = ''Sign'', j_description = None,
         j_created_by = Some ''u2'', j_priority = Some ''medium'', j_status = Some ''pending'',
         j_client_name = None\<rparr>]\<rparr>)"
    by (simp add: createJob_def insert_job_def ex_defs check_in_def fk_ok_def)
  from createJob_owner [OF h] h show ?thesis by simp
qed

text \<open>
  An insert sent to the storage layer with another identity in \<open>created_by\<close> is stored
  as sent: the second identity inserts a job owned by the first.
\<close>

theorem insert_job_foreign_owner_counterexample:
  "insert_job (Authenticated ''u2'') (ex_job\<lparr>j_id := ''j2''\<rparr>) ex_db
     = Inr (ex_db\<lparr>jobs := [ex_job, ex_job\<lparr>j_id := ''j2''\<rparr>]\<rparr>)
   \<and> j_created_by (ex_job\<lparr>j_id := ''j2''\<rparr>) \<noteq> auth_uid (Authenticated ''u2'')"
  by (simp add: insert_job_def ex_defs check_in_def fk_ok_def)

section \<open>An administrator changes a role\<close>

text \<open>
  Claim C3 at the input where the code departs from it. The only UPDATE policy of
  \<open>profiles\<close> is \<open>auth.uid() = id\<close>. When the administrator of the small database sends
  the request of \<open>updateUserRole\<close> for the other identity, no row passes the policy: the
  request returns no error and the database is as before. The other identity, sending
  the same request for its own row, makes itself an administrator.
\<close>

theorem admin_role_update_denied:
  "p_role ex_admin = ''admin''
   \<and> updateUserRole (Authenticated (p_id ex_admin)) (p_id ex_user) ''moderator'' ex_db = Inr ex_db
   \<and> updateUserRole (Authenticated (p_id ex_user)) (p_id ex_user) ''admin'' ex_db
       = Inr (ex_db\<lparr>profiles := [ex_admin, ex_user\<lparr>p_role := ''admin''\<rparr>]\<rparr>)"
  by (simp add: updateUserRole_def update_profiles_def rls_update_def rls_select_def ex_defs)

section \<open>Deleting a job\<close>

text \<open>
  Claim C5 at the input where the code departs from it. The owner deletes the job of
  the small database: the job and, by the cascade, its file row are gone, and the file's
  object is still in the bucket, where every authenticated caller can download it.
\<close>

theorem deleteJob_leaves_blob:
  "jobs (deleteJob (Authenticated ''u1'') ''j1'' ex_db) = []
   \<and> job_files (deleteJob (Authenticated ''u1'') ''j1'' ex_db) = []
   \<and> storage_download (Authenticated ''u2'') (jf_file_path ex_file)
        (deleteJob (Authenticated ''u1'') ''j1'' ex_db) = Inr ''abc''"
  by (simp add: deleteJob_def delete_jobs_def rls_select_def rls_delete_def
      storage_download_def in_job_files_bucket_def ex_defs)

section \<open>The profile of a new identity\<close>

lemma insert_auth_user_Inr:
  assumes "insert_auth_user NEW db = Inr db'"
  shows "\<exists>e. u_email NEW = Some e
           \<and> u_id NEW \<notin> set (map u_id (auth_users db))
           \<and> u_id NEW \<notin> set (map p_id (profiles db))
           \<and> db' = db\<lparr>auth_users := auth_users db @ [NEW],
                       profiles := profiles db @
                         [\<lparr>p_id = u_id NEW, p_email = e,
                           p_full_name = (case u_full_name NEW of None \<Rightarrow> e | Some n \<Rightarrow> n),
                           p_role = (if e \<in> set admin_emails then ''admin'' else ''user'')\<rparr>]\<rparr>"
proof (cases "u_email NEW")
  case None
  with assms show ?thesis
    by (simp add: insert_auth_user_def handle_new_user_def split: if_splits)
next
  case (Some e)
  with assms show ?thesis
    by (cases "u_full_name NEW")
       (auto simp: insert_auth_user_def handle_new_user_def coalesce_def sql_in_def
          is_true_def split: if_splits)
qed

lemma insert_auth_user_unseen:
  assumes unseen: "u_id NEW \<notin> set (map u_id (auth_users db))"
    and fk: "set (map p_id (profiles db)) \<subseteq> set (map u_id (auth_users db))"
  shows "case u_email NEW of
           None \<Rightarrow> insert_auth_user NEW db = Inl Not_null_violation
         | Some e \<Rightarrow> (\<exists>db'. insert_auth_user NEW db = Inr db')"
proof -
  from unseen fk have nop: "u_id NEW \<notin> set (map p_id (profiles db))"
    by blast
  show ?thesis
  proof (cases "u_email NEW")
    case None
    with unseen show ?thesis
      by (simp add: insert_auth_user_def handle_new_user_def)
  next
    case (Some e)
    with unseen nop show ?thesis
      by (cases "u_full_name NEW")
         (simp_all add: insert_auth_user_def handle_new_user_def coalesce_def)
  qed
qed

text \<open>
  Claim C2. Whenever the insert of an identity into \<open>auth.users\<close> succeeds, the
  identity has an email and the trigger has added one profile to the profiles there
  were: its role is \<open>admin\<close> when the email is on the allowlist and \<open>user\<close> otherwise, it
  is the only profile of the identity, and a second insert of the identity is rejected,
  so the trigger, the only code that computes a role from an email, does not run for it
  again. For an identity that \<open>auth.users\<close> has not seen, in a database where every
  profile belongs to an identity, the insert succeeds when the identity has an email;
  without an email the NOT NULL column of the profile rejects the insert, identity and
  all.
\<close>

theorem first_login_creates_profile:
  "(insert_auth_user NEW db = Inr db' \<longrightarrow>
      (\<exists>e. u_email NEW = Some e
         \<and> auth_users db' = auth_users db @ [NEW]
         \<and> profiles db' = profiles db @
              [\<lparr>p_id = u_id NEW, p_email = e,
                p_full_name = (case u_full_name NEW of None \<Rightarrow> e | Some n \<Rightarrow> n),
                p_role = (if e \<in> set admin_emails then ''admin'' else ''user'')\<rparr>]
         \<and> length (filter (\<lambda>p. p_id p = u_id NEW) (profiles db')) = 1
         \<and> insert_auth_user NEW db' = Inl Unique_violation))
   \<and> (u_id NEW \<notin> set (map u_id (auth_users db)) \<longrightarrow>
        set (map p_id (profiles db)) \<subseteq> set (map u_id (auth_users db)) \<longrightarrow>
        (case u_email NEW of
           None \<Rightarrow> insert_auth_user NEW db = Inl Not_null_violation
         | Some e \<Rightarrow> (\<exists>db2. insert_auth_user NEW db = Inr db2)))"
proof (intro conjI impI)
  assume "insert_auth_user NEW db = Inr db'"
  from insert_auth_user_Inr [OF this] obtain e where
    e: "u_email NEW = Some e"
    and nop: "u_id NEW \<notin> set (map p_id (profiles db))"
    and db': "db' = db\<lparr>auth_users := auth_users db @ [NEW],
                       profiles := profiles db @
                         [\<lparr>p_id = u_id NEW, p_email = e,
                           p_full_name = (case u_full_name NEW of None \<Rightarrow> e | Some n \<Rightarrow> n),
                           p_role = (if e \<in> set admin_emails then ''admin'' else ''user'')\<rparr>]\<rparr>"
    by blast
  from nop have none: "filter (\<lambda>p. p_id p = u_id NEW) (profiles db) = []"
    by (auto simp: filter_empty_conv image_iff)
  have again: "insert_auth_user NEW db' = Inl Unique_violation"
    by (simp add: db' insert_auth_user_def)
  from e none again show "\<exists>e. u_email NEW = Some e
         \<and> auth_users db' = auth_users db @ [NEW]
         \<and> profiles db' = profiles db @
              [\<lparr>p_id = u_id NEW, p_email = e,
                p_full_name = (case u_full_name NEW of None \<Rightarrow> e | Some n \<Rightarrow> n),
                p_role = (if e \<in> set admin_emails then ''admin'' else ''user'')\<rparr>]
         \<and> length (filter (\<lambda>p. p_id p = u_id NEW) (profiles db')) = 1
         \<and> insert_auth_user NEW db' = Inl Unique_violation"
    by (simp add: db')
next
  assume "u_id NEW \<notin> set (map u_id (auth_users db))"
    and "set (map p_id (profiles db)) \<subseteq> set (map u_id (auth_users db))"
  then show "case u_email NEW of
           None \<Rightarrow> insert_auth_user NEW db = Inl Not_null_violation
         | Some e \<Rightarrow> (\<exists>db2. insert_auth_user NEW db = Inr db2)"
    by (rule insert_auth_user_unseen)
qed

theorem first_login_creates_profile_witness:
  "insert_auth_user ex_chuck ex_db = Inr ex_db_chuck
   \<and> length (filter (\<lambda>p. p_id p = ''u3'') (profiles ex_db_chuck)) = 1
   \<and> insert_auth_user ex_chuck ex_db_chuck = Inl Unique_violation
   \<and> u_id ex_no_email \<notin> set (map u_id (auth_users ex_db))
   \<and> set (map p_id (profiles ex_db)) \<subseteq> set (map u_id (auth_users ex_db))
   \<and> insert_auth_user ex_no_email ex_db = Inl Not_null_violation"
proof -
  have ins: "insert_auth_user ex_chuck ex_db = Inr ex_db_chuck"
    by (simp add: insert_auth_user_def handle_new_user_def coalesce_def sql_in_def
        is_true_def admin_emails_def ex_defs ex_chuck_def ex_db_chuck_def)
  have a: "u_id ex_no_email \<notin> set (map u_id (auth_users ex_db))"
    by (simp add: ex_defs ex_no_email_def)
  have b: "set (map p_id (profiles ex_db)) \<subseteq> set (map u_id (auth_users ex_db))"
    by (simp add: ex_defs)
  have c: "u_email ex_no_email = None" "u_id ex_chuck = ''u3''"
    by (simp_all add: ex_no_email_def ex_chuck_def)
  from first_login_creates_profile [of ex_chuck ex_db ex_db_chuck]
       first_login_creates_profile [of ex_no_email ex_db] ins a b c
  show ?thesis by auto
qed

section \<open>Uploaded files cannot be removed from the bucket\<close>

lemma split_on_not_Nil [simp]: "split_on d s \<noteq> []"
  by (cases s) (auto split: list.splits)

lemma split_on_prefix:
  "d \<notin> set a \<Longrightarrow> split_on d (a @ d # rest) = a # split_on d rest"
  by (induction a) auto

lemma leading_folder:
  assumes "CHR ''/'' \<notin> set a"
  shows "sql_first (foldername (a @ ''/'' @ rest)) = Some a"
proof -
  have "split_on (CHR ''/'') (a @ ''/'' @ rest) = a # split_on (CHR ''/'') rest"
    using split_on_prefix [OF assms, of rest] by simp
  then show ?thesis
    by (simp add: foldername_def sql_first_def)
qed

lemma upload_path_folder:
  "CHR ''/'' \<notin> set jobId \<Longrightarrow> sql_first (foldername (upload_path jobId r)) = Some jobId"
  unfolding upload_path_def by (rule leading_folder)

lemma storage_delete_allowed_iff:
  "rls_allows (storage_objects_policies DELETE) c ob
     = (o_bucket_id ob = ''job-files''
        \<and> (\<exists>u. c = Authenticated u \<and> sql_first (foldername (o_name ob)) = Some u))"
  by (auto simp: in_job_files_bucket_def)

lemma storage_remove_denied:
  assumes "list_all (\<lambda>p. sql_first (foldername p) = Some jobId) paths"
    and "c \<noteq> Authenticated jobId"
  shows "storage_remove c paths db = db"
proof -
  have "\<not> ((o_bucket_id x = ''job-files'' \<and> o_name x \<in> set paths)
           \<and> rls_allows (storage_objects_policies DELETE) c x)" for x
    using assms by (auto simp: storage_delete_allowed_iff list_all_iff)
  then have "rls_delete (storage_objects_policies DELETE) c
               (\<lambda>x. o_bucket_id x = ''job-files'' \<and> o_name x \<in> set paths) (objects db)
             = objects db"
    unfolding rls_delete_def by simp
  then show ?thesis
    by (simp add: storage_remove_def)
qed

lemma storage_upload_Inr:
  assumes "storage_upload c path content db = Inr db1"
  shows "objects db1 = objects db @ [\<lparr>o_bucket_id = ''job-files'', o_name = path, o_content = content\<rparr>]
         \<and> job_files db1 = job_files db \<and> file_versions db1 = file_versions db
         \<and> (\<exists>u. c = Authenticated u)"
  using assms
  by (auto simp: storage_upload_def Let_def in_job_files_bucket_def split: if_splits)

lemma insert_job_file_Inr:
  assumes "insert_job_file c row db = Inr db1"
  shows "job_files db1 = job_files db @ [row] \<and> objects db1 = objects db"
  using assms by (auto simp: insert_job_file_def split: if_splits)

lemma handleFileUpload_appends:
  assumes "handleFileUpload up jobId reqs db = (res, db')"
  shows "\<exists>new_objects new_files.
           objects db' = objects db @ new_objects \<and> job_files db' = job_files db @ new_files
           \<and> list_all (\<lambda>ob. \<exists>r. o_name ob = upload_path jobId r) new_objects
           \<and> list_all (\<lambda>f. (\<exists>r. jf_file_path f = upload_path jobId r)
                            \<and> jf_uploaded_by f = auth_uid up) new_files"
  using assms
proof (induction reqs arbitrary: db)
  case Nil
  then show ?case by simp
next
  case (Cons r rs)
  show ?case
  proof (cases "storage_upload up (upload_path jobId r) (bf_content (ur_file r)) db")
    case (Inl e)
    with Cons.prems show ?thesis by simp
  next
    case (Inr db1)
    note up = storage_upload_Inr [OF Inr]
    let ?row = "\<lparr>jf_id = ur_new_id r, jf_job_id = Some jobId,
                   jf_file_name = bf_name (ur_file r),
                   jf_file_path = upload_path jobId r,
                   jf_file_type = (if bf_type (ur_file r) = [] then ''application/octet-stream''
                                   else bf_type (ur_file r)),
                   jf_file_size = bf_size (ur_file r),
                   jf_is_presentation = Some (is_presentation_file (ur_file r)),
                   jf_uploaded_by = auth_uid up\<rparr>"
    show ?thesis
    proof (cases "insert_job_file up ?row db1")
      case (Inl e)
      with Cons.prems Inr have "db' = db1" by simp
      with up show ?thesis
        by (intro exI [of _ "[_]"] exI [of _ "[]"]) auto
    next
      case (Inr db2)
      note ins = insert_job_file_Inr [OF Inr]
      from Cons.prems \<open>storage_upload up _ _ db = Inr db1\<close> Inr
      have "handleFileUpload up jobId rs db2 = (res, db')" by simp
      from Cons.IH [OF this] obtain no nf where
        rest: "objects db' = objects db2 @ no" "job_files db' = job_files db2 @ nf"
          "list_all (\<lambda>ob. \<exists>r. o_name ob = upload_path jobId r) no"
          "list_all (\<lambda>f. (\<exists>r. jf_file_path f = upload_path jobId r)
                            \<and> jf_uploaded_by f = auth_uid up) nf"
        by blast
      show ?thesis
        apply (rule exI [of _ "\<lparr>o_bucket_id = ''job-files'', o_name = upload_path jobId r,
                   o_content = bf_content (ur_file r)\<rparr> # no"])
        apply (rule exI [of _ "?row # nf"])
        using rest up ins by auto
    qed
  qed
qed

lemma show_nat_ex: "show_nat 1757102400 = ''1757102400''"
  by (simp add: show_nat.simps digit_char_def)

lemma file_ext_ex: "file_ext ''a.png'' = ''png''"
  by (simp add: file_ext_def)

text \<open>
  Claim C10. Let the job id have no \<open>/\<close> (it is a UUID) and let \<open>c\<close> be any caller
  whose identity is not the job id. Whatever \<open>handleFileUpload\<close> adds for the uploader
  \<open>up\<close>: every new object lies under a path whose leading segment is the job id, and
  the DELETE policy of the bucket denies it to \<open>c\<close>; every new file row carries such a
  path and the uploader's identity, and \<open>deleteFile\<close> by \<open>c\<close> on that row, in any later
  state, removes nothing from the bucket. The uploader is such a caller \<open>c\<close>.
\<close>

theorem upload_path_blocks_removal:
  assumes slash: "CHR ''/'' \<notin> set jobId"
    and run: "handleFileUpload up jobId reqs db = (res, db')"
    and other: "c \<noteq> Authenticated jobId"
  shows "\<exists>new_objects new_files.
           objects db' = objects db @ new_objects \<and> job_files db' = job_files db @ new_files
           \<and> list_all (\<lambda>ob. sql_first (foldername (o_name ob)) = Some jobId
                            \<and> \<not> rls_allows (storage_objects_policies DELETE) c ob) new_objects
           \<and> list_all (\<lambda>f. sql_first (foldername (jf_file_path f)) = Some jobId
                            \<and> jf_uploaded_by f = auth_uid up
                            \<and> objects (deleteFile c f later) = objects later) new_files"
proof -
  from handleFileUpload_appends [OF run] obtain no nf where
    app: "objects db' = objects db @ no" "job_files db' = job_files db @ nf"
    and no: "list_all (\<lambda>ob. \<exists>r. o_name ob = upload_path jobId r) no"
    and nf: "list_all (\<lambda>f. (\<exists>r. jf_file_path f = upload_path jobId r)
                            \<and> jf_uploaded_by f = auth_uid up) nf"
    by blast
  have a: "list_all (\<lambda>ob. sql_first (foldername (o_name ob)) = Some jobId
                            \<and> \<not> rls_allows (storage_objects_policies DELETE) c ob) no"
    using no slash other
    by (auto simp: list_all_iff upload_path_folder storage_delete_allowed_iff)
  have b: "list_all (\<lambda>f. sql_first (foldername (jf_file_path f)) = Some jobId
                            \<and> jf_uploaded_by f = auth_uid up
                            \<and> objects (deleteFile c f later) = objects later) nf"
    unfolding list_all_iff
  proof
    fix f assume "f \<in> set nf"
    with nf obtain r where p: "jf_file_path f = upload_path jobId r"
      and u: "jf_uploaded_by f = auth_uid up"
      by (auto simp: list_all_iff)
    have "storage_remove c [jf_file_path f] later = later"
      by (rule storage_remove_denied [where jobId = jobId])
         (simp_all add: p upload_path_folder [OF slash] other)
    then show "sql_first (foldername (jf_file_path f)) = Some jobId
                 \<and> jf_uploaded_by f = auth_uid up
                 \<and> objects (deleteFile c f later) = objects later"
      using p u by (simp add: deleteFile_def delete_job_files_def upload_path_folder [OF slash])
  qed
  from app a b show ?thesis by blast
qed

theorem upload_path_blocks_removal_witness:
  "CHR ''/'' \<notin> set ''j1''
   \<and> handleFileUpload (Authenticated ''u2'') ''j1'' [ex_request] ex_db =
       (None, ex_db\<lparr>job_files := [ex_file,
           \<lparr>jf_id = ''f2'', jf_job_id = Some ''j1'', jf_file_name = ''a.png'',
            jf_file_path = ''j1/1757102400-k3x9.png'', jf_file_type = ''image/png'',
            jf_file_size = 3, jf_is_presentation = Some False,
            jf_uploaded_by = Some ''u2''\<rparr>],
          objects := [ex_object,
           \<lparr>o_bucket_id = ''job-files'', o_name = ''j1/1757102400-k3x9.png'',
            o_content = ''abc''\<rparr>]\<rparr>)
   \<and> Authenticated ''u2'' \<noteq> Authenticated ''j1''
   \<and> \<not> rls_allows (storage_objects_policies DELETE) (Authenticated ''u2'')
         \<lparr>o_bucket_id = ''job-files'', o_name = ''j1/1757102400-k3x9.png'', o_content = ''abc''\<rparr>"
proof -
  have a: "CHR ''/'' \<notin> set ''j1''" by simp
  have p: "upload_path ''j1'' ex_request = ''j1/1757102400-k3x9.png''"
    by (simp add: upload_path_def ex_request_def ex_png_def show_nat_ex file_ext_ex)
  have pres: "\<not> is_presentation_file ex_png"
    by (simp add: is_presentation_file_def ex_png_def toLowerCase_def to_lower_char_def
        file_ext_ex)
  have b: "handleFileUpload (Authenticated ''u2'') ''j1'' [ex_request] ex_db =
       (None, ex_db\<lparr>job_files := [ex_file,
           \<lparr>jf_id = ''f2'', jf_job_id = Some ''j1'', jf_file_name = ''a.png'',
            jf_file_path = ''j1/1757102400-k3x9.png'', jf_file_type = ''image/png'',
            jf_file_size = 3, jf_is_presentation = Some False,
            jf_uploaded_by = Some ''u2''\<rparr>],
          objects := [ex_object,
           \<lparr>o_bucket_id = ''job-files'', o_name = ''j1/1757102400-k3x9.png'',
            o_content = ''abc''\<rparr>]\<rparr>)"
    using pres
    by (simp add: p storage_upload_def insert_job_file_def in_job_files_bucket_def fk_ok_def
        ex_defs) (simp add: ex_request_def ex_png_def)
  have c: "Authenticated ''u2'' \<noteq> Authenticated ''j1''" by simp
  from upload_path_blocks_removal [OF a b c] a b c show ?thesis
    by (auto simp: ex_defs)
qed

section \<open>Version numbers\<close>

lemma insert_file_version_Inr:
  assumes "insert_file_version c row db = Inr db2"
  shows "file_versions db2 = file_versions db @ [row] \<and> (\<exists>u. c = Authenticated u)"
  using assms by (auto simp: insert_file_version_def split: if_splits)

lemma createNewVersion_cases:
  assumes "createNewVersion c fid vs f cl nid db = (err, db')"
  shows "(err \<noteq> None \<and> file_versions db' = file_versions db)
         \<or> (err = None
             \<and> (\<exists>u v. c = Authenticated u \<and> file_versions db' = file_versions db @ [v]
                   \<and> fv_file_id v = fid \<and> fv_version_number v = length vs + 1))"
proof (cases "storage_upload c (version_path fid (length vs + 1) f) (bf_content f) db")
  case (Inl e)
  with assms show ?thesis by (auto simp: createNewVersion_def)
next
  case (Inr db1)
  note up = storage_upload_Inr [OF Inr]
  let ?row = "\<lparr>fv_id = nid, fv_file_id = fid, fv_version_number = length vs + 1,
                fv_file_path = version_path fid (length vs + 1) f, fv_file_size = bf_size f,
                fv_changelog = Some cl, fv_created_by = auth_uid c\<rparr>"
  show ?thesis
  proof (cases "insert_file_version c ?row db1")
    case (Inl e)
    with assms \<open>storage_upload c _ _ db = Inr db1\<close> up show ?thesis
      by (auto simp: createNewVersion_def)
  next
    case (Inr db2)
    note ins = insert_file_version_Inr [OF Inr]
    from assms \<open>storage_upload c _ _ db = Inr db1\<close> Inr
    have "db' = db2" "err = None"
      by (auto simp add: createNewVersion_def)
    with ins up show ?thesis by auto
  qed
qed

lemma versions_of_cong:
  "file_versions db' = file_versions db \<Longrightarrow> versions_of fid db' = versions_of fid db"
  by (simp add: versions_of_def)

lemma length_fetchVersions:
  "length (fetchVersions (Authenticated u) fid db) = length (versions_of fid db)"
  by (simp add: fetchVersions_def select_file_versions_def rls_select_def versions_of_def)

text \<open>
  A creation that directly follows a completed fetch of the same client adds nothing
  or one version, numbered one more than the file has versions.
\<close>

lemma fresh_pair_cases:
  assumes db': "db' = cl_db (step who fid (CreateNewVersion i f cl nid)
                         (step who fid (FetchVersions i) s))"
  shows "versions_of fid db' = versions_of fid (cl_db s)
         \<or> (\<exists>v. versions_of fid db' = versions_of fid (cl_db s) @ [v]
               \<and> fv_version_number v = Suc (length (versions_of fid (cl_db s))))"
proof -
  let ?vs = "fetchVersions (who i) fid (cl_db s)"
  obtain err where
    cnv: "createNewVersion (who i) fid ?vs f cl nid (cl_db s) = (err, db')"
    by (cases "createNewVersion (who i) fid ?vs f cl nid (cl_db s)") (simp add: db')
  from createNewVersion_cases [OF cnv] show ?thesis
  proof (elim disjE exE conjE)
    assume "file_versions db' = file_versions (cl_db s)"
    from versions_of_cong [OF this] show ?thesis by simp
  next
    fix u v
    assume auth: "who i = Authenticated u"
      and app: "file_versions db' = file_versions (cl_db s) @ [v]"
      and fid: "fv_file_id v = fid"
      and num: "fv_version_number v = length ?vs + 1"
    have "fv_version_number v = Suc (length (versions_of fid (cl_db s)))"
      using auth num by (simp add: length_fetchVersions)
    moreover have "versions_of fid db' = versions_of fid (cl_db s) @ [v]"
      using app fid by (simp add: versions_of_def)
    ultimately show ?thesis by blast
  qed
qed

lemma fresh_pair_well_numbered:
  assumes wn: "well_numbered fid (cl_db s)"
  shows "well_numbered fid (cl_db (step who fid (CreateNewVersion i f cl nid)
           (step who fid (FetchVersions i) s)))"
proof -
  define db' where "db' = cl_db (step who fid (CreateNewVersion i f cl nid)
                            (step who fid (FetchVersions i) s))"
  from fresh_pair_cases [OF db'_def] have "well_numbered fid db'"
  proof (elim disjE exE conjE)
    assume "versions_of fid db' = versions_of fid (cl_db s)"
    with wn show ?thesis by (simp add: well_numbered_def)
  next
    fix v
    assume vo: "versions_of fid db' = versions_of fid (cl_db s) @ [v]"
      and n: "fv_version_number v = Suc (length (versions_of fid (cl_db s)))"
    from wn have old: "\<forall>w \<in> set (versions_of fid (cl_db s)).
                         fv_version_number w \<le> length (versions_of fid (cl_db s))"
      by (simp add: well_numbered_def list_all_iff)
    then have "fv_version_number v \<notin> fv_version_number ` set (versions_of fid (cl_db s))"
      using n by auto
    with wn old n show ?thesis
      by (auto simp: well_numbered_def vo list_all_iff le_SucI)
  qed
  then show ?thesis unfolding db'_def .
qed

lemma fresh_schedule_well_numbered:
  assumes "well_numbered fid (cl_db s)"
  shows "well_numbered fid (cl_db (fold (step who fid)
           (concat (map (\<lambda>(i, f, cl, nid). [FetchVersions i, CreateNewVersion i f cl nid]) reqs))
           s))"
  using assms
proof (induction reqs arbitrary: s)
  case Nil
  then show ?case by simp
next
  case (Cons r rs)
  obtain i f cl nid where r: "r = (i, f, cl, nid)" by (cases r)
  from fresh_pair_well_numbered [OF Cons.prems]
  have "well_numbered fid (cl_db (step who fid (CreateNewVersion i f cl nid)
           (step who fid (FetchVersions i) s)))" .
  from Cons.IH [OF this] show ?case
    by (simp add: r)
qed

text \<open>
  The same schedules keep the numbers increasing in the order of creation, when they
  were so at the start.
\<close>

lemma fresh_pair_increasing:
  assumes wn: "well_numbered fid (cl_db s)"
    and inc: "sorted_wrt (<) (map fv_version_number (versions_of fid (cl_db s)))"
  shows "sorted_wrt (<) (map fv_version_number (versions_of fid
           (cl_db (step who fid (CreateNewVersion i f cl nid)
              (step who fid (FetchVersions i) s)))))"
proof -
  define db' where "db' = cl_db (step who fid (CreateNewVersion i f cl nid)
                            (step who fid (FetchVersions i) s))"
  from fresh_pair_cases [OF db'_def]
  have "sorted_wrt (<) (map fv_version_number (versions_of fid db'))"
  proof (elim disjE exE conjE)
    assume "versions_of fid db' = versions_of fid (cl_db s)"
    with inc show ?thesis by simp
  next
    fix v
    assume vo: "versions_of fid db' = versions_of fid (cl_db s) @ [v]"
      and n: "fv_version_number v = Suc (length (versions_of fid (cl_db s)))"
    from wn have "\<forall>w \<in> set (versions_of fid (cl_db s)).
                    fv_version_number w < fv_version_number v"
      by (auto simp: well_numbered_def list_all_iff n)
    with inc show ?thesis
      by (simp add: vo sorted_wrt_append)
  qed
  then show ?thesis unfolding db'_def .
qed

lemma fresh_schedule_increasing:
  assumes "well_numbered fid (cl_db s)"
    and "sorted_wrt (<) (map fv_version_number (versions_of fid (cl_db s)))"
  shows "sorted_wrt (<) (map fv_version_number (versions_of fid (cl_db (fold (step who fid)
           (concat (map (\<lambda>(i, f, cl, nid). [FetchVersions i, CreateNewVersion i f cl nid]) reqs))
           s))))"
  using assms
proof (induction reqs arbitrary: s)
  case Nil
  then show ?case by simp
next
  case (Cons r rs)
  obtain i f cl nid where r: "r = (i, f, cl, nid)" by (cases r)
  let ?s1 = "step who fid (CreateNewVersion i f cl nid) (step who fid (FetchVersions i) s)"
  have wn: "well_numbered fid (cl_db ?s1)"
    by (rule fresh_pair_well_numbered [OF Cons.prems(1)])
  have inc: "sorted_wrt (<) (map fv_version_number (versions_of fid (cl_db ?s1)))"
    by (rule fresh_pair_increasing [OF Cons.prems])
  from Cons.IH [OF wn inc] show ?case
    by (simp add: r)
qed

lemma show_nat_small: "show_nat (Suc 0) = ''1''" "show_nat (Suc (Suc 0)) = ''2''"
  by (simp_all add: show_nat.simps digit_char_def)

lemma file_ext_jpg: "file_ext ''b.jpg'' = ''jpg''"
  by (simp add: file_ext_def)

lemmas version_eval = createNewVersion_def storage_upload_def insert_file_version_def
  version_path_def fetchVersions_def select_file_versions_def rls_select_def
  in_job_files_bucket_def show_nat_small file_ext_ex file_ext_jpg ex_png_def ex_jpg_def
  ex_who_def ex_collab_def ex_db_def ex_object_def run_def versions_of_def Let_def

text \<open>
  Claim C8, as the code has it. A version that \<open>createNewVersion\<close> creates belongs to
  the file and is numbered the length of the list the client holds plus one; when that
  list is what a fetch returns now, this is the count of the file's versions plus one.
  When every creation directly follows a completed fetch of the creating client, and
  the file's version numbers at the start increase in the order of creation with none
  above their count, the version numbers of the file increase strictly in the order of
  creation at the end.
\<close>

theorem version_number_from_fetched_list:
  "(createNewVersion c fid vs f cl nid db = (None, db') \<longrightarrow>
      (\<exists>v. file_versions db' = file_versions db @ [v] \<and> fv_file_id v = fid
         \<and> fv_version_number v = length vs + 1
         \<and> (vs = fetchVersions c fid db \<longrightarrow>
              fv_version_number v = length (versions_of fid db) + 1)))
   \<and> (well_numbered fid (cl_db s) \<longrightarrow>
        sorted_wrt (<) (map fv_version_number (versions_of fid (cl_db s))) \<longrightarrow>
        sorted_wrt (<) (map fv_version_number (versions_of fid (cl_db (run who fid
           (concat (map (\<lambda>(i, f, cl, nid). [FetchVersions i, CreateNewVersion i f cl nid]) reqs))
           s)))))"
proof (intro conjI impI)
  assume "createNewVersion c fid vs f cl nid db = (None, db')"
  from createNewVersion_cases [OF this] obtain u v where
    "c = Authenticated u" "file_versions db' = file_versions db @ [v]"
    "fv_file_id v = fid" "fv_version_number v = length vs + 1"
    by auto
  then show "\<exists>v. file_versions db' = file_versions db @ [v] \<and> fv_file_id v = fid
         \<and> fv_version_number v = length vs + 1
         \<and> (vs = fetchVersions c fid db \<longrightarrow>
              fv_version_number v = length (versions_of fid db) + 1)"
    by (auto simp: length_fetchVersions)
next
  assume "well_numbered fid (cl_db s)"
    and "sorted_wrt (<) (map fv_version_number (versions_of fid (cl_db s)))"
  then show "sorted_wrt (<) (map fv_version_number (versions_of fid (cl_db (run who fid
           (concat (map (\<lambda>(i, f, cl, nid). [FetchVersions i, CreateNewVersion i f cl nid]) reqs))
           s))))"
    unfolding run_def by (rule fresh_schedule_increasing)
qed

theorem version_number_from_fetched_list_witness:
  "createNewVersion (Authenticated ''u1'') ''f1'' [] ex_png ''first'' ''v1'' ex_db
     = (None, ex_db_v1)
   \<and> [] = fetchVersions (Authenticated ''u1'') ''f1'' ex_db
   \<and> file_versions ex_db_v1 = file_versions ex_db @ [ex_version]
   \<and> fv_version_number ex_version = length (versions_of ''f1'' ex_db) + 1
   \<and> well_numbered ''f1'' (cl_db ex_collab)
   \<and> sorted_wrt (<) (map fv_version_number (versions_of ''f1'' (cl_db ex_collab)))
   \<and> map fv_version_number (versions_of ''f1'' (cl_db (run ex_who ''f1''
        (concat (map (\<lambda>(i, f, cl, nid). [FetchVersions i, CreateNewVersion i f cl nid])
           [(0, ex_png, ''first'', ''v1''), (0, ex_jpg, ''second'', ''v2'')]))
        ex_collab))) = [1, 2]"
proof -
  have a: "createNewVersion (Authenticated ''u1'') ''f1'' [] ex_png ''first'' ''v1'' ex_db
     = (None, ex_db_v1)"
    by (simp add: version_eval ex_version_def ex_db_v1_def)
  have b: "[] = fetchVersions (Authenticated ''u1'') ''f1'' ex_db"
    by (simp add: version_eval)
  have c: "well_numbered ''f1'' (cl_db ex_collab)"
    by (simp add: well_numbered_def versions_of_def ex_collab_def ex_db_def)
  have d: "sorted_wrt (<) (map fv_version_number (versions_of ''f1'' (cl_db ex_collab)))"
    by (simp add: versions_of_def ex_collab_def ex_db_def)
  have h: "map fv_version_number (versions_of ''f1'' (cl_db (run ex_who ''f1''
        (concat (map (\<lambda>(i, f, cl, nid). [FetchVersions i, CreateNewVersion i f cl nid])
           [(0, ex_png, ''first'', ''v1''), (0, ex_jpg, ''second'', ''v2'')]))
        ex_collab))) = [1, 2]"
    by (simp add: version_eval)
  have e: "file_versions ex_db_v1 = file_versions ex_db @ [ex_version]"
    by (simp add: ex_db_v1_def ex_db_def)
  from version_number_from_fetched_list [of "Authenticated ''u1''" "''f1''" "[]" ex_png
      "''first''" "''v1''" ex_db ex_db_v1 ex_collab ex_who
      "[(0, ex_png, ''first'', ''v1''), (0, ex_jpg, ''second'', ''v2'')]"] a b
  have "fv_version_number ex_version = length (versions_of ''f1'' ex_db) + 1"
    by (auto simp: e)
  with a b c d e h show ?thesis by simp
qed

text \<open>
  The claim as written fails for one client that creates twice in a row: the fetch
  that the first creation starts has not completed when the second creation runs, so
  the second version is numbered 1 again, while the file has one version already.
\<close>

theorem unawaited_fetch_counterexample:
  "map fv_version_number (versions_of ''f1'' (cl_db (run ex_who ''f1''
      [FetchVersions 0, CreateNewVersion 0 ex_png ''first'' ''v1'',
       CreateNewVersion 0 ex_jpg ''second'' ''v2''] ex_collab))) = [1, 1]
   \<and> length (versions_of ''f1'' (cl_db (run ex_who ''f1''
      [FetchVersions 0, CreateNewVersion 0 ex_png ''first'' ''v1''] ex_collab))) + 1 = 2
   \<and> \<not> sorted_wrt (<) (map fv_version_number (versions_of ''f1'' (cl_db (run ex_who ''f1''
      [FetchVersions 0, CreateNewVersion 0 ex_png ''first'' ''v1'',
       CreateNewVersion 0 ex_jpg ''second'' ''v2''] ex_collab))))"
  by (simp add: version_eval)

text \<open>
  Claim C7, as the code has it. The version number comes from the list the client
  fetched last; the storage layer keeps no counter and \<open>file_versions\<close> has no
  uniqueness constraint on it. When every creation follows a fetch by the same client
  with no other request in between, and the file's versions are well numbered at the
  start, the version numbers of the file are pairwise distinct at the end, for any
  number of clients and creations.
\<close>

theorem fresh_lists_distinct_versions:
  assumes "well_numbered fid (cl_db s)"
  shows "distinct (map fv_version_number (versions_of fid (cl_db (run who fid
           (concat (map (\<lambda>(i, f, cl, nid). [FetchVersions i, CreateNewVersion i f cl nid]) reqs))
           s))))"
  using fresh_schedule_well_numbered [OF assms, of who reqs]
  by (simp add: run_def well_numbered_def)

theorem fresh_lists_distinct_versions_witness:
  "well_numbered ''f1'' (cl_db ex_collab)
   \<and> map fv_version_number (versions_of ''f1'' (cl_db (run ex_who ''f1''
        (concat (map (\<lambda>(i, f, cl, nid). [FetchVersions i, CreateNewVersion i f cl nid])
           [(0, ex_png, ''first'', ''v1''), (1, ex_jpg, ''second'', ''v2'')]))
        ex_collab))) = [1, 2]"
proof -
  have a: "well_numbered ''f1'' (cl_db ex_collab)"
    by (simp add: well_numbered_def versions_of_def ex_collab_def ex_db_def)
  have h: "map fv_version_number (versions_of ''f1'' (cl_db (run ex_who ''f1''
        (concat (map (\<lambda>(i, f, cl, nid). [FetchVersions i, CreateNewVersion i f cl nid])
           [(0, ex_png, ''first'', ''v1''), (1, ex_jpg, ''second'', ''v2'')]))
        ex_collab))) = [1, 2]"
    by (simp add: version_eval)
  from fresh_lists_distinct_versions [OF a, of ex_who
      "[(0, ex_png, ''first'', ''v1''), (1, ex_jpg, ''second'', ''v2'')]"] a h
  show ?thesis by simp
qed

text \<open>
  The claim as written fails when two clients fetch before either creates: both number
  their version 1, the two uploads go to different paths (\<open>f1_v1.png\<close> and \<open>f1_v1.jpg\<close>)
  and both rows are inserted.
\<close>

theorem stale_lists_duplicate_counterexample:
  "map fv_version_number (versions_of ''f1'' (cl_db (run ex_who ''f1''
      [FetchVersions 0, FetchVersions 1,
       CreateNewVersion 0 ex_png ''first'' ''v1'', CreateNewVersion 1 ex_jpg ''second'' ''v2'']
      ex_collab))) = [1, 1]
   \<and> \<not> distinct (map fv_version_number (versions_of ''f1'' (cl_db (run ex_who ''f1''
      [FetchVersions 0, FetchVersions 1,
       CreateNewVersion 0 ex_png ''first'' ''v1'', CreateNewVersion 1 ex_jpg ''second'' ''v2'']
      ex_collab))))"
  by (simp add: version_eval)

end
